theory Spec2Isabelle
  imports Main "HOL-Library.AList"
begin

section \<open>The navigation document\<close>

text \<open>
  \<^verbatim>\<open>packages/docutils/lib/nav.ts\<close> reads \<^verbatim>\<open>mkdocs.yml\<close>, lists the Markdown files that
  TypeDoc wrote to its \<^verbatim>\<open>commands\<close> directory and rewrites the \<^verbatim>\<open>nav\<close> key of the
  document when the listed files differ from the reference pages the document names.

  An entry of \<^verbatim>\<open>nav\<close> is a string (a page) or a mapping from titles to either one page
  or a nested list of entries. A mapping is kept as an association list in key order;
  reading a key takes its first binding (\<open>map_of\<close>) and assigning a key replaces that
  binding in place (\<open>AList.update\<close>), as a JavaScript object does with an own property.
\<close>

datatype entry = Page string | Section "(string \<times> nav_value) list"
  and nav_value = Leaf string | Children "entry list"

text \<open>
  The document: \<^verbatim>\<open>docs_dir\<close> and \<^verbatim>\<open>nav\<close> are optional keys; every other key is carried
  along untouched in \<open>other_keys\<close>.
\<close>

record mkdocs_yml =
  docs_dir :: "string option"
  nav :: "entry list option"
  other_keys :: "(string \<times> string) list"

text \<open>The options of \<^verbatim>\<open>updateNav\<close> that the reconciliation reads; each may be absent.\<close>

record UpdateNavOpts =
  referenceHeader :: "string option"
  noReferenceHeader :: "bool option"
  dryRun :: "bool option"

definition DEFAULT_REFERENCE_HEADER :: string where
  "DEFAULT_REFERENCE_HEADER = ''Reference''"

text \<open>A directory entry as \<^verbatim>\<open>fs.readdir(dir, {withFileTypes: true})\<close> yields it.\<close>

record dirent =
  name :: string
  isFile :: bool

text \<open>The lines the logger receives, one constructor for each call site.\<close>

datatype log_line =
    Warn_no_reference_docs
  | Debug_new_reference_filepaths "string list"
  | Debug_difference "entry list"
  | Debug_replaced_section "entry list"
  | Debug_added_section "string list"
  | Debug_replaced_nav "entry list"
  | Debug_yaml mkdocs_yml
  | Success_updated
  | Info_no_changes

text \<open>
  What one call leaves behind: the document in memory, the document handed to
  \<^verbatim>\<open>safeWriteFile\<close> (\<open>None\<close> when the file is not written) and the log.
\<close>

record outcome =
  yml :: mkdocs_yml
  written :: "mkdocs_yml option"
  logs :: "log_line list"

section \<open>Strings and paths\<close>

text \<open>\<^verbatim>\<open>_.startsWith(string, target)\<close> and \<^verbatim>\<open>String.prototype.endsWith\<close>.\<close>

definition startsWith :: "string \<Rightarrow> string \<Rightarrow> bool" where
  "startsWith s target = (take (length target) s = target)"

definition endsWith :: "string \<Rightarrow> string \<Rightarrow> bool" where
  "endsWith s target =
     (length target \<le> length s \<and> drop (length s - length target) s = target)"

text \<open>
  Absolute, normalised POSIX paths are lists of segments below the root.
  \<^verbatim>\<open>path.relative(from, to)\<close> drops the common leading segments, climbs out of what is
  left of \<^verbatim>\<open>from\<close> with \<^verbatim>\<open>..\<close> and descends into what is left of \<^verbatim>\<open>to\<close>; two equal
  paths give the empty string.
\<close>

fun strip_common :: "string list \<Rightarrow> string list \<Rightarrow> string list \<times> string list" where
  "strip_common (a # as) (b # bs) =
     (if a = b then strip_common as bs else (a # as, b # bs))"
| "strip_common as bs = (as, bs)"

fun join_segments :: "string list \<Rightarrow> string" where
  "join_segments [] = []"
| "join_segments [s] = s"
| "join_segments (s # t # ss) = s @ ''/'' @ join_segments (t # ss)"

definition path_relative :: "string list \<Rightarrow> string list \<Rightarrow> string" where
  "path_relative frm dst =
     (case strip_common frm dst of
        (up, down) \<Rightarrow> join_segments (replicate (length up) ''..'' @ down))"

text \<open>
  \<^verbatim>\<open>path.join(dir, name)\<close> for a relative \<^verbatim>\<open>dir\<close> as \<^verbatim>\<open>path.relative\<close> returns it and
  the name of a directory entry: an empty \<^verbatim>\<open>dir\<close> is skipped.
\<close>

definition path_join :: "string \<Rightarrow> string \<Rightarrow> string" where
  "path_join dir file = (if dir = [] then file else dir @ ''/'' @ file)"

section \<open>The lodash helpers\<close>

text \<open>
  \<^verbatim>\<open>_.toString\<close> leaves a string as it is and gives \<^verbatim>\<open>[object Object]\<close> for a mapping;
  \<^verbatim>\<open>_.startsWith\<close> applies it to its first argument.
\<close>

fun lodash_toString :: "entry \<Rightarrow> string" where
  "lodash_toString (Page s) = s"
| "lodash_toString (Section kvs) = ''[object Object]''"

fun isString :: "entry \<Rightarrow> bool" where
  "isString (Page s) = True"
| "isString (Section kvs) = False"

fun isObject :: "entry \<Rightarrow> bool" where
  "isObject (Page s) = False"
| "isObject (Section kvs) = True"

subsection \<open>Property paths\<close>

text \<open>
  \<^verbatim>\<open>_.has(object, path)\<close> walks a path of own properties. The values it can meet below
  an entry are strings, arrays of entries, mappings and the number that is the
  \<^verbatim>\<open>length\<close> of a string or an array.
\<close>

datatype js_value =
    JString string
  | JArray "entry list"
  | JObject "(string \<times> nav_value) list"
  | JNumber nat

fun of_entry :: "entry \<Rightarrow> js_value" where
  "of_entry (Page s) = JString s"
| "of_entry (Section kvs) = JObject kvs"

fun of_value :: "nav_value \<Rightarrow> js_value" where
  "of_value (Leaf s) = JString s"
| "of_value (Children es) = JArray es"

definition isDigit :: "char \<Rightarrow> bool" where
  "isDigit c = (c \<in> set ''0123456789'')"

definition isWordChar :: "char \<Rightarrow> bool" where
  "isWordChar c =
     (c \<in> set ''abcdefghijklmnopqrstuvwxyzABCDEFGHIJKLMNOPQRSTUVWXYZ0123456789_'')"

definition isQuote :: "char \<Rightarrow> bool" where
  "isQuote c = (c = CHR 0x22 \<or> c = CHR 0x27)"

definition isBracket :: "char \<Rightarrow> bool" where
  "isBracket c = (c = CHR ''['' \<or> c = CHR '']'')"

definition isPlainChar :: "char \<Rightarrow> bool" where
  "isPlainChar c = (c \<noteq> CHR ''.'' \<and> \<not> isBracket c)"

text \<open>
  The own properties of a value (\<^verbatim>\<open>hasOwnProperty\<close>, then \<^verbatim>\<open>object[key]\<close>): the keys of a
  mapping; \<^verbatim>\<open>length\<close> and the indices below it, written as decimal numerals without a
  leading zero, for a string or an array; none for a number.
\<close>

definition array_index :: "string \<Rightarrow> nat option" where
  "array_index k =
     (if k \<noteq> [] \<and> list_all isDigit k \<and> (k = ''0'' \<or> hd k \<noteq> CHR ''0'')
      then Some (foldl (\<lambda>n c. 10 * n + (of_char c - 48)) 0 k) else None)"

fun own_property :: "js_value \<Rightarrow> string \<Rightarrow> js_value option" where
  "own_property (JObject kvs) k = map_option of_value (map_of kvs k)"
| "own_property (JString s) k =
     (if k = ''length'' then Some (JNumber (length s))
      else case array_index k of
             None \<Rightarrow> None
           | Some i \<Rightarrow> if i < length s then Some (JString [s ! i]) else None)"
| "own_property (JArray es) k =
     (if k = ''length'' then Some (JNumber (length es))
      else case array_index k of
             None \<Rightarrow> None
           | Some i \<Rightarrow> if i < length es then Some (of_entry (es ! i)) else None)"
| "own_property (JNumber n) k = None"

text \<open>
  \<^verbatim>\<open>hasPath(object, path, baseHas)\<close>: every key of the path is an own property of the
  value reached so far. Its last line, for an index of an array that is not an own
  property, never applies to the dense arrays of a parsed document.
\<close>

fun hasPath :: "js_value \<Rightarrow> string list \<Rightarrow> bool" where
  "hasPath v [] = False"
| "hasPath v [k] = (own_property v k \<noteq> None)"
| "hasPath v (k # k' # ks) =
     (case own_property v k of None \<Rightarrow> False | Some v' \<Rightarrow> hasPath v' (k' # ks))"

text \<open>
  \<^verbatim>\<open>isKey(value, object)\<close>: a string is one key when it is made of word characters
  (\<^verbatim>\<open>reIsPlainProp\<close>), or has neither a dot nor a bracketed part (\<^verbatim>\<open>reIsDeepProp\<close>), or
  is a property of the object as it stands. \<open>quoted q s\<close> reads the rest of a quoted
  string up to the closing quote \<open>q\<close> and the bracket after it; a backslash takes the
  next character with it.
\<close>

definition reIsPlainProp :: "string \<Rightarrow> bool" where
  "reIsPlainProp s = list_all isWordChar s"

fun quoted :: "char \<Rightarrow> string \<Rightarrow> (string \<times> string) option" where
  "quoted q [] = None"
| "quoted q (c # cs) =
     (if c = q then
        (case cs of
           [] \<Rightarrow> None
         | d # rest \<Rightarrow> if d = CHR '']'' then Some ([], rest) else None)
      else if c = CHR 0x5C then
        (case cs of
           [] \<Rightarrow> None
         | e # rest \<Rightarrow>
             if e = CHR 0x0A \<or> e = CHR 0x0D then None
             else map_option (\<lambda>(body, r). (c # e # body, r)) (quoted q rest))
      else map_option (\<lambda>(body, r). (c # body, r)) (quoted q cs))"

definition deepBracket :: "string \<Rightarrow> bool" where
  "deepBracket r =
     ((case dropWhile (\<lambda>c. \<not> isBracket c) r of [] \<Rightarrow> False | c # _ \<Rightarrow> c = CHR '']'')
      \<or> (case r of [] \<Rightarrow> False | q # body \<Rightarrow> isQuote q \<and> quoted q body \<noteq> None))"

fun reIsDeepProp :: "string \<Rightarrow> bool" where
  "reIsDeepProp [] = False"
| "reIsDeepProp (c # cs) =
     (c = CHR ''.'' \<or> (c = CHR ''['' \<and> deepBracket cs) \<or> reIsDeepProp cs)"

definition isKey :: "string \<Rightarrow> js_value \<Rightarrow> bool" where
  "isKey k v = (reIsPlainProp k \<or> \<not> reIsDeepProp k \<or> own_property v k \<noteq> None)"

text \<open>
  \<^verbatim>\<open>stringToPath\<close> collects the matches of \<^verbatim>\<open>rePropName\<close> from left to right: a run of
  characters other than dot and brackets; a bracketed number or quoted string (with
  \<^verbatim>\<open>reEscapeChar\<close> removing the backslashes of the quoted one); an empty key where a dot
  or \<^verbatim>\<open>[]\<close> is followed by another of them or by the end. A leading dot gives one more
  empty key. \<open>skip\<close> counts the characters of the last match that are still to be
  passed over.
\<close>

fun unescape :: "string \<Rightarrow> string" where
  "unescape [] = []"
| "unescape [c] = (if c = CHR 0x5C then [] else [c])"
| "unescape (c # d # r) =
     (if c = CHR 0x5C then (if d = CHR 0x5C then d # unescape r else unescape (d # r))
      else c # unescape (d # r))"

definition bracketNumber :: "string \<Rightarrow> (string \<times> string) option" where
  "bracketNumber r =
     (let sign = takeWhile (\<lambda>c. c = CHR ''-'') (take 1 r);
          r1 = drop (length sign) r;
          ds = takeWhile isDigit r1;
          r2 = dropWhile isDigit r1
      in if ds = [] then None
         else (case r2 of
                 [] \<Rightarrow> None
               | c # r3 \<Rightarrow>
                   if c = CHR '']'' then Some (sign @ ds, r3)
                   else if c = CHR ''.'' then
                     (let fs = takeWhile isDigit r3; r4 = dropWhile isDigit r3
                      in if fs \<noteq> [] \<and> take 1 r4 = '']''
                         then Some (sign @ ds @ ''.'' @ fs, drop 1 r4) else None)
                   else None))"

definition bracket :: "string \<Rightarrow> (string \<times> string) option" where
  "bracket r =
     (case bracketNumber r of
        Some m \<Rightarrow> Some m
      | None \<Rightarrow>
          (case r of
             [] \<Rightarrow> None
           | q # body \<Rightarrow>
               if isQuote q then map_option (\<lambda>(b, rest). (unescape b, rest)) (quoted q body)
               else None))"

definition separator :: "string \<Rightarrow> string option" where
  "separator r =
     (if take 1 r = ''.'' then Some (drop 1 r)
      else if take 2 r = ''[]'' then Some (drop 2 r) else None)"

definition emptyKeyAhead :: "string \<Rightarrow> bool" where
  "emptyKeyAhead r =
     (case separator r of None \<Rightarrow> False | Some r' \<Rightarrow> r' = [] \<or> separator r' \<noteq> None)"

fun rePropName :: "nat \<Rightarrow> string \<Rightarrow> string list" where
  "rePropName skip [] = []"
| "rePropName skip (c # cs) =
     (if skip > 0 then rePropName (skip - 1) cs
      else if isPlainChar c then
        takeWhile isPlainChar (c # cs) # rePropName (length (takeWhile isPlainChar cs)) cs
      else
        (case (if c = CHR ''['' then bracket cs else None) of
           Some (tok, rest) \<Rightarrow> tok # rePropName (length cs - length rest) cs
         | None \<Rightarrow>
             if emptyKeyAhead (c # cs) then [] # rePropName 0 cs else rePropName 0 cs))"

definition stringToPath :: "string \<Rightarrow> string list" where
  "stringToPath s = (if take 1 s = ''.'' then [[]] else []) @ rePropName 0 s"

definition castPath :: "string \<Rightarrow> js_value \<Rightarrow> string list" where
  "castPath k v = (if isKey k v then [k] else stringToPath k)"

text \<open>
  \<^verbatim>\<open>_.has(object, path)\<close>. A header that a mapping binds is found as that key; a header
  with a dot or a bracketed part that the mapping does not bind is read as a path, so
  \<^verbatim>\<open>About.length\<close> is found in a mapping whose key \<^verbatim>\<open>About\<close> holds a page.
\<close>

definition has :: "entry \<Rightarrow> string \<Rightarrow> bool" where
  "has e k = hasPath (of_entry e) (castPath k (of_entry e))"

text \<open>\<^verbatim>\<open>_.findIndex\<close>: the index of the first element the predicate accepts, else \<open>-1\<close>.\<close>

fun findIndex :: "'a list \<Rightarrow> ('a \<Rightarrow> bool) \<Rightarrow> int" where
  "findIndex [] p = - 1"
| "findIndex (x # xs) p =
     (if p x then 0
      else (let i = findIndex xs p in if i < 0 then - 1 else i + 1))"

text \<open>
  \<^verbatim>\<open>_.partition(collection, predicate)\<close> walks an array element by element and a string
  character by character (each a string of length one); a missing collection is empty.
\<close>

fun collection :: "nav_value option \<Rightarrow> entry list" where
  "collection None = []"
| "collection (Some (Children es)) = es"
| "collection (Some (Leaf s)) = map (\<lambda>c. Page [c]) s"

definition lodash_partition :: "'a list \<Rightarrow> ('a \<Rightarrow> bool) \<Rightarrow> 'a list \<times> 'a list" where
  "lodash_partition xs p = (filter p xs, filter (\<lambda>x. \<not> p x) xs)"

text \<open>
  \<^verbatim>\<open>_.xor(a, b)\<close>: the elements of \<^verbatim>\<open>a\<close> that are not in \<^verbatim>\<open>b\<close>, then those of \<^verbatim>\<open>b\<close> that
  are not in \<^verbatim>\<open>a\<close>, each value once at its first position.
\<close>

definition difference :: "'a list \<Rightarrow> 'a list \<Rightarrow> 'a list" where
  "difference xs ys = filter (\<lambda>x. x \<notin> set ys) xs"

fun uniq :: "'a list \<Rightarrow> 'a list" where
  "uniq [] = []"
| "uniq (x # xs) = x # filter (\<lambda>y. y \<noteq> x) (uniq xs)"

definition lodash_xor :: "'a list \<Rightarrow> 'a list \<Rightarrow> 'a list" where
  "lodash_xor xs ys = uniq (difference xs ys @ difference ys xs)"

section \<open>The closures and the type guard of nav.ts\<close>

definition findRefDictIndex :: "string \<Rightarrow> entry list \<Rightarrow> int" where
  "findRefDictIndex hdr nv = findIndex nv (\<lambda>e. isObject e \<and> has e hdr)"

definition isRef :: "string \<Rightarrow> entry \<Rightarrow> bool" where
  "isRef refDir e = startsWith (lodash_toString e) (refDir @ ''/'')"

definition partitionRefArray :: "string \<Rightarrow> entry list \<Rightarrow> entry list \<times> entry list" where
  "partitionRefArray refDir arr = lodash_partition arr (isRef refDir)"

definition isStringArray :: "entry list \<Rightarrow> bool" where
  "isStringArray nv = list_all isString nv"

text \<open>\<^verbatim>\<open>refDict[referenceHeader]\<close>: the value a mapping binds to the header.\<close>

fun refArray :: "entry \<Rightarrow> string \<Rightarrow> nav_value option" where
  "refArray (Page s) hdr = None"
| "refArray (Section kvs) hdr = map_of kvs hdr"

text \<open>\<^verbatim>\<open>refDict[referenceHeader] = res\<close>.\<close>

fun assign :: "entry \<Rightarrow> string \<Rightarrow> entry list \<Rightarrow> entry" where
  "assign (Page s) hdr res = Page s"
| "assign (Section kvs) hdr res = Section (AList.update hdr (Children res) kvs)"

section \<open>updateNav\<close>

text \<open>Line 71: \<^verbatim>\<open>const {docs_dir: docsDir, nav = []} = mkDocsYml\<close>.\<close>

definition nav_of :: "mkdocs_yml \<Rightarrow> entry list" where
  "nav_of mkDocsYml = (case nav mkDocsYml of None \<Rightarrow> [] | Some n \<Rightarrow> n)"

text \<open>
  Lines 111 to 118: the list that is partitioned is the one under the header of the first
  mapping that has the header, and the whole top-level list when no mapping has it.
  The index found by \<open>findRefDictIndex\<close> is within the list whenever it is not negative.
\<close>

definition refTarget :: "string \<Rightarrow> entry list \<Rightarrow> entry list" where
  "refTarget hdr nv =
     (let refDictIdx = findRefDictIndex hdr nv in
      if refDictIdx \<ge> 0 then collection (refArray (nv ! nat refDictIdx) hdr) else nv)"

definition existing :: "string \<Rightarrow> string \<Rightarrow> entry list \<Rightarrow> entry list \<times> entry list" where
  "existing hdr refDir nv = partitionRefArray refDir (refTarget hdr nv)"

text \<open>Lines 106 to 146, from the style detection to the write.\<close>

definition reconcile ::
  "string \<Rightarrow> bool \<Rightarrow> string \<Rightarrow> mkdocs_yml \<Rightarrow> string list \<Rightarrow> outcome" where
  "reconcile hdr noRefHdr refDir mkDocsYml newRefFilepaths =
     (let nv = nav_of mkDocsYml;
          navUsesHeaders = (noRefHdr \<or> \<not> isStringArray nv);
          refDictIdx = findRefDictIndex hdr nv;
          refFilepaths = fst (existing hdr refDir nv);
          nonRefFilepaths = snd (existing hdr refDir nv);
          symmetricDiff = lodash_xor (map Page newRefFilepaths) refFilepaths
      in
      if symmetricDiff \<noteq> [] then
        (if navUsesHeaders then
           (if refDictIdx \<ge> 0 then
              (let res = nonRefFilepaths @ map Page newRefFilepaths;
                   doc = mkDocsYml\<lparr>nav :=
                     Some (nv[nat refDictIdx := assign (nv ! nat refDictIdx) hdr res])\<rparr>
               in \<lparr>yml = doc, written = Some doc,
                   logs = [Debug_difference symmetricDiff, Debug_replaced_section res,
                           Debug_yaml doc, Success_updated]\<rparr>)
            else
              (let doc = mkDocsYml\<lparr>nav :=
                     Some (nonRefFilepaths
                           @ [Section [(hdr, Children (map Page newRefFilepaths))]])\<rparr>
               in \<lparr>yml = doc, written = Some doc,
                   logs = [Debug_difference symmetricDiff, Debug_added_section newRefFilepaths,
                           Debug_yaml doc, Success_updated]\<rparr>))
         else
           (let res = nonRefFilepaths @ map Page newRefFilepaths;
                doc = mkDocsYml\<lparr>nav := Some res\<rparr>
            in \<lparr>yml = doc, written = Some doc,
                logs = [Debug_difference symmetricDiff, Debug_replaced_nav res,
                        Debug_yaml doc, Success_updated]\<rparr>))
      else \<lparr>yml = mkDocsYml, written = None, logs = [Info_no_changes]\<rparr>)"

text \<open>Lines 98 to 102: the Markdown files of the listing, in listing order.\<close>

definition isMarkdownFile :: "dirent \<Rightarrow> bool" where
  "isMarkdownFile ent = (isFile ent \<and> endsWith (name ent) ''.md'')"

definition discover :: "string \<Rightarrow> dirent list \<Rightarrow> string list" where
  "discover relCommandDir ents =
     map (\<lambda>ent. path_join relCommandDir (name ent)) (filter isMarkdownFile ents)"

text \<open>The defaults of the options (lines 30 and 31) and the two relative paths (80 and 92).\<close>

definition header_of :: "UpdateNavOpts \<Rightarrow> string" where
  "header_of opts =
     (case referenceHeader opts of None \<Rightarrow> DEFAULT_REFERENCE_HEADER | Some h \<Rightarrow> h)"

definition noHeader_of :: "UpdateNavOpts \<Rightarrow> bool" where
  "noHeader_of opts = (case noReferenceHeader opts of None \<Rightarrow> False | Some b \<Rightarrow> b)"

definition relReferenceDir :: "string list \<Rightarrow> string list \<Rightarrow> string" where
  "relReferenceDir mkDocsDocsDir typeDocOutDir = path_relative mkDocsDocsDir typeDocOutDir"

definition relCommandDir :: "string list \<Rightarrow> string list \<Rightarrow> string" where
  "relCommandDir mkDocsDocsDir typeDocOutDir =
     path_relative mkDocsDocsDir (typeDocOutDir @ [''commands''])"

text \<open>
  \<^verbatim>\<open>updateNav\<close> from line 71 on. The paths have been resolved and both documents read:
  \<open>mkDocsDocsDir\<close> and \<open>typeDocOutDir\<close> are the absolute directories of lines 75 and 59,
  \<open>commandDocFileEnts\<close> is the listing that \<^verbatim>\<open>fs.readdir\<close> returned. A reader or the
  listing that fails throws before any of this runs, and the write is the last effect of
  a run; neither failure is part of the model.
\<close>

definition updateNav ::
  "UpdateNavOpts \<Rightarrow> string list \<Rightarrow> string list \<Rightarrow> mkdocs_yml \<Rightarrow> dirent list \<Rightarrow> outcome" where
  "updateNav opts mkDocsDocsDir typeDocOutDir mkDocsYml commandDocFileEnts =
     (if commandDocFileEnts = [] then
        \<lparr>yml = mkDocsYml, written = None, logs = [Warn_no_reference_docs]\<rparr>
      else
        (let newRefFilepaths =
               discover (relCommandDir mkDocsDocsDir typeDocOutDir) commandDocFileEnts;
             r = reconcile (header_of opts) (noHeader_of opts)
                   (relReferenceDir mkDocsDocsDir typeDocOutDir) mkDocsYml newRefFilepaths
         in r\<lparr>logs := Debug_new_reference_filepaths newRefFilepaths # logs r\<rparr>))"

section \<open>Facts about the helpers\<close>

lemma findIndex_neg_iff: "findIndex xs p < 0 \<longleftrightarrow> (\<forall>x \<in> set xs. \<not> p x)"
  by (induction xs) (auto simp: Let_def)

lemma findIndex_found:
  "0 \<le> findIndex xs p \<Longrightarrow>
     nat (findIndex xs p) < length xs \<and> p (xs ! nat (findIndex xs p)) \<and>
     (\<forall>j < nat (findIndex xs p). \<not> p (xs ! j))"
proof (induction xs)
  case Nil
  then show ?case by simp
next
  case (Cons x xs)
  show ?case
  proof (cases "p x")
    case True
    then show ?thesis by simp
  next
    case False
    with Cons.prems have ge: "0 \<le> findIndex xs p"
      by (simp add: Let_def split: if_splits)
    with False have eq: "findIndex (x # xs) p = findIndex xs p + 1"
      by (simp add: Let_def)
    from ge have n: "nat (findIndex xs p + 1) = Suc (nat (findIndex xs p))"
      by simp
    from Cons.IH [OF ge] False show ?thesis
      unfolding eq n by (auto simp: less_Suc_eq_0_disj)
  qed
qed

lemma findIndex_first:
  "i < length xs \<Longrightarrow> p (xs ! i) \<Longrightarrow> (\<forall>j < i. \<not> p (xs ! j)) \<Longrightarrow> findIndex xs p = int i"
proof (induction xs arbitrary: i)
  case Nil
  then show ?case by simp
next
  case (Cons x xs)
  show ?case
  proof (cases i)
    case 0
    with Cons.prems show ?thesis by simp
  next
    case (Suc k)
    with Cons.prems have "\<not> p x" by auto
    moreover from Suc Cons.prems have "findIndex xs p = int k"
      by (intro Cons.IH) auto
    ultimately show ?thesis using Suc by (simp add: Let_def)
  qed
qed

text \<open>
  A header that the mapping binds is found, and a header of word characters is found
  only if the mapping binds it.
\<close>

lemma has_own: "map_of kvs k \<noteq> None \<Longrightarrow> has (Section kvs) k"
  by (auto simp: has_def castPath_def isKey_def)

lemma has_plain: "reIsPlainProp k \<Longrightarrow> has (Section kvs) k = (map_of kvs k \<noteq> None)"
  by (simp add: has_def castPath_def isKey_def)

lemma has_Reference: "has (Section kvs) ''Reference'' = (map_of kvs ''Reference'' \<noteq> None)"
  by (rule has_plain) (simp add: reIsPlainProp_def isWordChar_def)

lemma uniq_Nil_iff: "uniq xs = [] \<longleftrightarrow> xs = []"
  by (cases xs) simp_all

lemma lodash_xor_Nil_iff: "lodash_xor xs ys = [] \<longleftrightarrow> set xs = set ys"
  by (auto simp: lodash_xor_def difference_def uniq_Nil_iff filter_empty_conv)

text \<open>A mapping never counts as a reference page: its text has no slash.\<close>

lemma isRef_Section: "\<not> isRef d (Section kvs)"
proof
  assume "isRef d (Section kvs)"
  then have "take (length (d @ ''/'')) ''[object Object]'' = d @ ''/''"
    by (simp add: isRef_def startsWith_def)
  then have "set (d @ ''/'') \<subseteq> set ''[object Object]''"
    by (metis set_take_subset)
  then show False by simp
qed

lemma isRef_isString: "isRef d e \<Longrightarrow> isString e"
  by (cases e) (simp_all add: isRef_Section)

section \<open>The branches of the reconciliation\<close>

text \<open>A list with a reference section is not a list of plain strings.\<close>

lemma section_not_flat: "0 \<le> findRefDictIndex hdr nv \<Longrightarrow> \<not> isStringArray nv"
proof
  assume ge: "0 \<le> findRefDictIndex hdr nv" and flat: "isStringArray nv"
  let ?i = "nat (findRefDictIndex hdr nv)"
  from findIndex_found [of nv "\<lambda>e. isObject e \<and> has e hdr"] ge
  have "?i < length nv" and "isObject (nv ! ?i)"
    by (simp_all add: findRefDictIndex_def)
  moreover from flat \<open>?i < length nv\<close> have "isString (nv ! ?i)"
    by (simp add: isStringArray_def list_all_length)
  ultimately show False by (cases "nv ! ?i") simp_all
qed

lemma reconcile_same:
  "set (map Page D) = set (fst (existing hdr d (nav_of y))) \<Longrightarrow>
   reconcile hdr b d y D = \<lparr>yml = y, written = None, logs = [Info_no_changes]\<rparr>"
  by (simp add: reconcile_def Let_def lodash_xor_Nil_iff)

lemma reconcile_section:
  "set (map Page D) \<noteq> set (fst (existing hdr d (nav_of y))) \<Longrightarrow>
   0 \<le> findRefDictIndex hdr (nav_of y) \<Longrightarrow>
   written (reconcile hdr b d y D) =
     Some (y\<lparr>nav := Some ((nav_of y)[nat (findRefDictIndex hdr (nav_of y)) :=
       assign (nav_of y ! nat (findRefDictIndex hdr (nav_of y))) hdr
         (snd (existing hdr d (nav_of y)) @ map Page D)])\<rparr>)"
  using section_not_flat [of hdr "nav_of y"]
  by (simp add: reconcile_def Let_def lodash_xor_Nil_iff)

lemma reconcile_added:
  "set (map Page D) \<noteq> set (fst (existing hdr d (nav_of y))) \<Longrightarrow>
   findRefDictIndex hdr (nav_of y) < 0 \<Longrightarrow> b \<or> \<not> isStringArray (nav_of y) \<Longrightarrow>
   written (reconcile hdr b d y D) =
     Some (y\<lparr>nav := Some (snd (existing hdr d (nav_of y))
                          @ [Section [(hdr, Children (map Page D))]])\<rparr>)"
  by (auto simp add: reconcile_def Let_def lodash_xor_Nil_iff)

lemma reconcile_flat:
  "set (map Page D) \<noteq> set (fst (existing hdr d (nav_of y))) \<Longrightarrow>
   \<not> b \<Longrightarrow> isStringArray (nav_of y) \<Longrightarrow>
   written (reconcile hdr b d y D) =
     Some (y\<lparr>nav := Some (snd (existing hdr d (nav_of y)) @ map Page D)\<rparr>)"
  by (simp add: reconcile_def Let_def lodash_xor_Nil_iff)

lemma reconcile_yml:
  "yml (reconcile hdr b d y D) =
     (case written (reconcile hdr b d y D) of None \<Rightarrow> y | Some y' \<Rightarrow> y')"
  by (simp add: reconcile_def Let_def)

lemma updateNav_written:
  "ents \<noteq> [] \<Longrightarrow>
   written (updateNav opts docs out y ents) =
     written (reconcile (header_of opts) (noHeader_of opts) (relReferenceDir docs out) y
       (discover (relCommandDir docs out) ents))"
  by (simp add: updateNav_def Let_def)

lemma updateNav_yml:
  "ents \<noteq> [] \<Longrightarrow>
   yml (updateNav opts docs out y ents) =
     yml (reconcile (header_of opts) (noHeader_of opts) (relReferenceDir docs out) y
       (discover (relCommandDir docs out) ents))"
  by (simp add: updateNav_def Let_def)

text \<open>The definitions that evaluate a run on a given document and listing.\<close>

lemmas run_defs = updateNav_def reconcile_def existing_def refTarget_def nav_of_def
  findRefDictIndex_def has_Reference isStringArray_def partitionRefArray_def lodash_partition_def
  isRef_def startsWith_def endsWith_def lodash_xor_def difference_def discover_def
  isMarkdownFile_def path_join_def path_relative_def relReferenceDir_def
  relCommandDir_def header_of_def noHeader_of_def DEFAULT_REFERENCE_HEADER_def Let_def

lemma existing_fst: "fst (existing hdr d nv) = filter (isRef d) (refTarget hdr nv)"
  by (simp add: existing_def partitionRefArray_def lodash_partition_def)

lemma existing_snd:
  "snd (existing hdr d nv) = filter (\<lambda>e. \<not> isRef d e) (refTarget hdr nv)"
  by (simp add: existing_def partitionRefArray_def lodash_partition_def)

lemma existing_strings: "list_all isString (fst (existing hdr d nv))"
  by (auto simp: existing_fst list_all_iff intro: isRef_isString)

lemma section_found:
  assumes "0 \<le> findRefDictIndex hdr nv"
  shows "nat (findRefDictIndex hdr nv) < length nv"
    and "\<exists>kvs. nv ! nat (findRefDictIndex hdr nv) = Section kvs"
    and "\<forall>j < nat (findRefDictIndex hdr nv). \<not> (isObject (nv ! j) \<and> has (nv ! j) hdr)"
proof -
  let ?i = "nat (findRefDictIndex hdr nv)"
  from findIndex_found [of nv "\<lambda>e. isObject e \<and> has e hdr"] assms
  have i: "?i < length nv" and p: "isObject (nv ! ?i) \<and> has (nv ! ?i) hdr"
    and first: "\<forall>j < ?i. \<not> (isObject (nv ! j) \<and> has (nv ! j) hdr)"
    by (simp_all add: findRefDictIndex_def)
  show "?i < length nv" by (rule i)
  from p show "\<exists>kvs. nv ! ?i = Section kvs"
    by (cases "nv ! ?i") simp_all
  show "\<forall>j < ?i. \<not> (isObject (nv ! j) \<and> has (nv ! j) hdr)" by (rule first)
qed


lemma refTarget_top: "findRefDictIndex hdr nv < 0 \<Longrightarrow> refTarget hdr nv = nv"
  by (simp add: refTarget_def)

lemma findRefDictIndex_assign:
  assumes "0 \<le> findRefDictIndex hdr nv"
  shows "findRefDictIndex hdr
           (nv[nat (findRefDictIndex hdr nv) := assign (nv ! nat (findRefDictIndex hdr nv)) hdr res])
         = findRefDictIndex hdr nv"
proof -
  let ?i = "nat (findRefDictIndex hdr nv)"
  let ?nv' = "nv[?i := assign (nv ! ?i) hdr res]"
  from section_found [OF assms] obtain kvs where i: "?i < length nv"
    and kvs: "nv ! ?i = Section kvs"
    and first: "\<forall>j < ?i. \<not> (isObject (nv ! j) \<and> has (nv ! j) hdr)"
    by blast
  have "findIndex ?nv' (\<lambda>e. isObject e \<and> has e hdr) = int ?i"
  proof (rule findIndex_first)
    show "?i < length ?nv'" using i by simp
    show "isObject (?nv' ! ?i) \<and> has (?nv' ! ?i) hdr"
      using i kvs by (simp add: update_conv' has_own)
    show "\<forall>j < ?i. \<not> (isObject (?nv' ! j) \<and> has (?nv' ! j) hdr)"
      using first by simp
  qed
  with assms show ?thesis by (simp add: findRefDictIndex_def)
qed

lemma refTarget_assign:
  assumes "0 \<le> findRefDictIndex hdr nv"
  shows "refTarget hdr
           (nv[nat (findRefDictIndex hdr nv) := assign (nv ! nat (findRefDictIndex hdr nv)) hdr res])
         = res"
proof -
  let ?i = "nat (findRefDictIndex hdr nv)"
  from section_found [OF assms] obtain kvs where i: "?i < length nv"
    and kvs: "nv ! ?i = Section kvs"
    by blast
  show ?thesis
    unfolding refTarget_def findRefDictIndex_assign [OF assms] Let_def
    using assms i kvs by (simp add: update_conv')
qed

lemma findRefDictIndex_added:
  assumes "findRefDictIndex hdr nv < 0"
  shows "findRefDictIndex hdr (filter q nv @ [Section [(hdr, v)]]) = int (length (filter q nv))"
proof -
  from assms have none: "\<forall>e \<in> set nv. \<not> (isObject e \<and> has e hdr)"
    by (simp add: findRefDictIndex_def findIndex_neg_iff)
  have "findIndex (filter q nv @ [Section [(hdr, v)]]) (\<lambda>e. isObject e \<and> has e hdr)
        = int (length (filter q nv))"
  proof (rule findIndex_first)
    show "length (filter q nv) < length (filter q nv @ [Section [(hdr, v)]])" by simp
    show "isObject ((filter q nv @ [Section [(hdr, v)]]) ! length (filter q nv)) \<and>
          has ((filter q nv @ [Section [(hdr, v)]]) ! length (filter q nv)) hdr"
      by (simp add: has_own)
    show "\<forall>j < length (filter q nv).
            \<not> (isObject ((filter q nv @ [Section [(hdr, v)]]) ! j) \<and>
               has ((filter q nv @ [Section [(hdr, v)]]) ! j) hdr)"
    proof (intro allI impI)
      fix j assume j: "j < length (filter q nv)"
      then have "filter q nv ! j \<in> set nv"
        by (metis filter_is_subset nth_mem subsetD)
      with none j show "\<not> (isObject ((filter q nv @ [Section [(hdr, v)]]) ! j) \<and>
               has ((filter q nv @ [Section [(hdr, v)]]) ! j) hdr)"
        by (simp add: nth_append)
    qed
  qed
  then show ?thesis by (simp add: findRefDictIndex_def)
qed

lemma refTarget_added:
  assumes "findRefDictIndex hdr nv < 0"
  shows "refTarget hdr (filter q nv @ [Section [(hdr, Children es)]]) = es"
  unfolding refTarget_def findRefDictIndex_added [OF assms] Let_def by simp

lemma findRefDictIndex_flat: "isStringArray nv \<Longrightarrow> findRefDictIndex hdr nv < 0"
  using section_not_flat [of hdr nv] by fastforce

text \<open>What a run that writes leaves in the tree, branch by branch.\<close>

lemma reconcile_written_cases:
  assumes "written (reconcile hdr b d y D) = Some y'"
  shows "set (map Page D) \<noteq> set (fst (existing hdr d (nav_of y)))"
    and "0 \<le> findRefDictIndex hdr (nav_of y) \<Longrightarrow>
         y' = y\<lparr>nav := Some ((nav_of y)[nat (findRefDictIndex hdr (nav_of y)) :=
           assign (nav_of y ! nat (findRefDictIndex hdr (nav_of y))) hdr
             (snd (existing hdr d (nav_of y)) @ map Page D)])\<rparr>"
    and "findRefDictIndex hdr (nav_of y) < 0 \<Longrightarrow> b \<or> \<not> isStringArray (nav_of y) \<Longrightarrow>
         y' = y\<lparr>nav := Some (snd (existing hdr d (nav_of y))
                          @ [Section [(hdr, Children (map Page D))]])\<rparr>"
    and "\<not> b \<Longrightarrow> isStringArray (nav_of y) \<Longrightarrow>
         y' = y\<lparr>nav := Some (snd (existing hdr d (nav_of y)) @ map Page D)\<rparr>"
proof -
  show diff: "set (map Page D) \<noteq> set (fst (existing hdr d (nav_of y)))"
    using assms reconcile_same [of D hdr d y b] by auto
  show "y' = y\<lparr>nav := Some ((nav_of y)[nat (findRefDictIndex hdr (nav_of y)) :=
           assign (nav_of y ! nat (findRefDictIndex hdr (nav_of y))) hdr
             (snd (existing hdr d (nav_of y)) @ map Page D)])\<rparr>"
    if "0 \<le> findRefDictIndex hdr (nav_of y)"
    using reconcile_section [OF diff that, of b] assms by simp
  show "y' = y\<lparr>nav := Some (snd (existing hdr d (nav_of y))
                          @ [Section [(hdr, Children (map Page D))]])\<rparr>"
    if "findRefDictIndex hdr (nav_of y) < 0" "b \<or> \<not> isStringArray (nav_of y)"
    using reconcile_added [OF diff that] assms by simp
  show "y' = y\<lparr>nav := Some (snd (existing hdr d (nav_of y)) @ map Page D)\<rparr>"
    if "\<not> b" "isStringArray (nav_of y)"
    using reconcile_flat [OF diff that] assms by simp
qed

lemma nav_of_update [simp]: "nav_of (y\<lparr>nav := Some nv\<rparr>) = nv"
  by (simp add: nav_of_def)

section \<open>The suppress-header option\<close>

text \<open>
  C1. With \<^verbatim>\<open>noReferenceHeader\<close> set, a tree \<^verbatim>\<open>["intro.md"]\<close> and one discovered page, the
  claim expects the flat tree \<^verbatim>\<open>["intro.md", "ref/a.md"]\<close>. Line 106 reads
  \<^verbatim>\<open>noReferenceHeader || !isStringArray(nav)\<close>, so the option turns headers on: the run
  appends a \<^verbatim>\<open>Reference\<close> mapping that holds the page. The first equation is a whole
  run with the docs directory \<^verbatim>\<open>/p/docs\<close> and TypeDoc's output in \<^verbatim>\<open>/p/docs/ref\<close>, the
  second the reconciliation on the page list of the scenario.
\<close>

theorem noReferenceHeader_adds_section:
  "written (updateNav \<lparr>referenceHeader = None, noReferenceHeader = Some True, dryRun = None\<rparr>
      [''p'', ''docs''] [''p'', ''docs'', ''ref'']
      \<lparr>docs_dir = None, nav = Some [Page ''intro.md''], other_keys = []\<rparr>
      [\<lparr>name = ''a.md'', isFile = True\<rparr>])
   = Some \<lparr>docs_dir = None,
            nav = Some [Page ''intro.md'',
                        Section [(''Reference'', Children [Page ''ref/commands/a.md''])]],
            other_keys = []\<rparr>
   \<and> written (reconcile ''Reference'' True ''ref''
      \<lparr>docs_dir = None, nav = Some [Page ''intro.md''], other_keys = []\<rparr> [''ref/a.md''])
   = Some \<lparr>docs_dir = None,
            nav = Some [Page ''intro.md'',
                        Section [(''Reference'', Children [Page ''ref/a.md''])]],
            other_keys = []\<rparr>"
  by (simp add: run_defs)

section \<open>The early exit\<close>

text \<open>
  C2. The claim expects the warning and no write whenever the commands directory holds
  no Markdown file. The guard of line 94 tests the listing as \<^verbatim>\<open>fs.readdir\<close> returned
  it, before lines 98 to 102 keep the regular files that end in \<^verbatim>\<open>.md\<close>. A listing
  that holds one file that is not Markdown passes the guard with an empty page list:
  the run empties a tree that named a reference page, writes the document and logs no
  warning, although its own warning reads
  \<^verbatim>\<open>No reference API docs were found in %s; skipping navigation update\<close>.
\<close>

theorem no_markdown_still_writes:
  "filter isMarkdownFile [\<lparr>name = ''README.txt'', isFile = True\<rparr>] = [] \<and>
   updateNav \<lparr>referenceHeader = None, noReferenceHeader = None, dryRun = None\<rparr>
      [''p'', ''docs''] [''p'', ''docs'', ''ref'']
      \<lparr>docs_dir = None, nav = Some [Page ''ref/commands/a.md''], other_keys = []\<rparr>
      [\<lparr>name = ''README.txt'', isFile = True\<rparr>]
   = \<lparr>yml = \<lparr>docs_dir = None, nav = Some [], other_keys = []\<rparr>,
      written = Some \<lparr>docs_dir = None, nav = Some [], other_keys = []\<rparr>,
      logs = [Debug_new_reference_filepaths [],
              Debug_difference [Page ''ref/commands/a.md''],
              Debug_replaced_nav [],
              Debug_yaml \<lparr>docs_dir = None, nav = Some [], other_keys = []\<rparr>,
              Success_updated]\<rparr>"
  by (simp add: run_defs)

text \<open>
  The path that does skip: when the listing is empty (no entry of any kind), the run
  logs the warning and nothing else, leaves the document in memory as it was read and
  writes nothing, whatever the tree holds.
\<close>

lemma empty_listing_skips:
  "updateNav opts docs out y [] =
     \<lparr>yml = y, written = None, logs = [Warn_no_reference_docs]\<rparr>"
  by (simp add: updateNav_def)

lemma empty_listing_skips_example:
  "updateNav \<lparr>referenceHeader = None, noReferenceHeader = None, dryRun = None\<rparr>
      [''p'', ''docs''] [''p'', ''docs'', ''ref'']
      \<lparr>docs_dir = None, nav = Some [Page ''ref/commands/a.md''], other_keys = []\<rparr> []
   = \<lparr>yml = \<lparr>docs_dir = None, nav = Some [Page ''ref/commands/a.md''], other_keys = []\<rparr>,
      written = None, logs = [Warn_no_reference_docs]\<rparr>"
  by (rule empty_listing_skips)

section \<open>The dry-run flag\<close>

text \<open>
  C8. The outcome of a run (the document in memory, whether and what is written, the
  log) is the same for any two values of \<^verbatim>\<open>dryRun\<close>, absent, false or true: the flag is
  never read.
\<close>

theorem updateNav_ignores_dryRun:
  "updateNav (opts\<lparr>dryRun := flag\<rparr>) docs out y ents =
   updateNav (opts\<lparr>dryRun := flag'\<rparr>) docs out y ents"
  by (simp add: updateNav_def header_of_def noHeader_of_def)

text \<open>With \<^verbatim>\<open>dryRun\<close> true the file is written, as it is with \<^verbatim>\<open>dryRun\<close> false.\<close>

theorem updateNav_ignores_dryRun_witness:
  "written (updateNav \<lparr>referenceHeader = None, noReferenceHeader = None, dryRun = Some True\<rparr>
      [''p'', ''docs''] [''p'', ''docs'', ''ref'']
      \<lparr>docs_dir = None, nav = Some [Page ''intro.md''], other_keys = []\<rparr>
      [\<lparr>name = ''a.md'', isFile = True\<rparr>])
   = Some \<lparr>docs_dir = None, nav = Some [Page ''intro.md'', Page ''ref/commands/a.md''],
            other_keys = []\<rparr>"
proof -
  have "written (updateNav
      \<lparr>referenceHeader = None, noReferenceHeader = None, dryRun = Some False\<rparr>
      [''p'', ''docs''] [''p'', ''docs'', ''ref'']
      \<lparr>docs_dir = None, nav = Some [Page ''intro.md''], other_keys = []\<rparr>
      [\<lparr>name = ''a.md'', isFile = True\<rparr>])
   = Some \<lparr>docs_dir = None, nav = Some [Page ''intro.md'', Page ''ref/commands/a.md''],
            other_keys = []\<rparr>"
    by (simp add: run_defs)
  then show ?thesis
    using updateNav_ignores_dryRun
      [where opts = "\<lparr>referenceHeader = None, noReferenceHeader = None, dryRun = None\<rparr>"
         and flag = "Some True" and flag' = "Some False"
         and docs = "[''p'', ''docs'']" and out = "[''p'', ''docs'', ''ref'']"
         and y = "\<lparr>docs_dir = None, nav = Some [Page ''intro.md''], other_keys = []\<rparr>"
         and ents = "[\<lparr>name = ''a.md'', isFile = True\<rparr>]"]
    by simp
qed

section \<open>An empty tree\<close>

text \<open>
  C10. When the document has no \<^verbatim>\<open>nav\<close> key or an empty \<^verbatim>\<open>nav\<close> list, the header is not
  suppressed and the listing holds at least one Markdown file, the run writes the
  document with \<^verbatim>\<open>nav\<close> set to exactly the discovered paths, a flat list of strings with
  no mapping in it.
\<close>

theorem empty_nav_flat:
  assumes "nav y = None \<or> nav y = Some []"
    and "noReferenceHeader opts = None \<or> noReferenceHeader opts = Some False"
    and "filter isMarkdownFile ents \<noteq> []"
  shows "written (updateNav opts docs out y ents) =
           Some (y\<lparr>nav := Some (map Page (discover (relCommandDir docs out) ents))\<rparr>)
         \<and> yml (updateNav opts docs out y ents) =
           y\<lparr>nav := Some (map Page (discover (relCommandDir docs out) ents))\<rparr>
         \<and> isStringArray (map Page (discover (relCommandDir docs out) ents))"
proof -
  let ?D = "discover (relCommandDir docs out) ents"
  let ?hdr = "header_of opts" and ?d = "relReferenceDir docs out"
  from assms(1) have nv: "nav_of y = []" by (auto simp: nav_of_def)
  from assms(2) have b: "\<not> noHeader_of opts" by (auto simp: noHeader_of_def)
  from assms(3) have ents: "ents \<noteq> []" by auto
  from assms(3) have D: "?D \<noteq> []" by (simp add: discover_def)
  have ex: "existing ?hdr ?d [] = ([], [])"
    by (simp add: existing_def refTarget_def findRefDictIndex_def partitionRefArray_def
        lodash_partition_def)
  from D have diff: "set (map Page ?D) \<noteq> set (fst (existing ?hdr ?d (nav_of y)))"
    by (simp add: nv ex)
  have w: "written (reconcile ?hdr (noHeader_of opts) ?d y ?D) = Some (y\<lparr>nav := Some (map Page ?D)\<rparr>)"
    using reconcile_flat [OF diff b] by (simp add: nv ex isStringArray_def)
  have "isStringArray (map Page ?D)"
    by (simp add: isStringArray_def list_all_iff)
  with w ents show ?thesis
    by (simp add: updateNav_written updateNav_yml reconcile_yml)
qed

theorem empty_nav_flat_witness:
  "filter isMarkdownFile [\<lparr>name = ''a.md'', isFile = True\<rparr>] \<noteq> [] \<and>
   written (updateNav \<lparr>referenceHeader = None, noReferenceHeader = None, dryRun = None\<rparr>
      [''p'', ''docs''] [''p'', ''docs'', ''ref'']
      \<lparr>docs_dir = None, nav = None, other_keys = []\<rparr>
      [\<lparr>name = ''a.md'', isFile = True\<rparr>])
   = Some \<lparr>docs_dir = None, nav = Some [Page ''ref/commands/a.md''], other_keys = []\<rparr>"
  using empty_nav_flat
      [where opts = "\<lparr>referenceHeader = None, noReferenceHeader = None, dryRun = None\<rparr>"
         and docs = "[''p'', ''docs'']" and out = "[''p'', ''docs'', ''ref'']"
         and y = "\<lparr>docs_dir = None, nav = None, other_keys = []\<rparr>"
         and ents = "[\<lparr>name = ''a.md'', isFile = True\<rparr>]"]
  by (simp add: discover_def isMarkdownFile_def endsWith_def relCommandDir_def
      path_relative_def path_join_def)

section \<open>When the document is written\<close>

text \<open>
  C4. When the listing is not empty, so that the early exit is not taken, the existing
  reference partition holds strings only and the document is written exactly when the
  discovered paths and the existing reference partition differ as sets; repeated
  entries on either side play no part. When the two sets are equal the document in
  memory is the one that was read and nothing is written.
\<close>

theorem write_iff_sets_differ:
  assumes "ents \<noteq> []"
  shows "list_all isString (fst (existing (header_of opts) (relReferenceDir docs out) (nav_of y)))
    \<and> ((written (updateNav opts docs out y ents) \<noteq> None) =
        (Page ` set (discover (relCommandDir docs out) ents) \<noteq>
         set (fst (existing (header_of opts) (relReferenceDir docs out) (nav_of y)))))
    \<and> (Page ` set (discover (relCommandDir docs out) ents) =
         set (fst (existing (header_of opts) (relReferenceDir docs out) (nav_of y))) \<longrightarrow>
        yml (updateNav opts docs out y ents) = y \<and>
        written (updateNav opts docs out y ents) = None)"
proof -
  let ?D = "discover (relCommandDir docs out) ents"
  let ?E = "fst (existing (header_of opts) (relReferenceDir docs out) (nav_of y))"
  let ?r = "reconcile (header_of opts) (noHeader_of opts) (relReferenceDir docs out) y ?D"
  have same: "written ?r = None \<and> yml ?r = y" if "Page ` set ?D = set ?E"
    using that
      reconcile_same [of ?D "header_of opts" "relReferenceDir docs out" y "noHeader_of opts"]
    by simp
  have differ: "written ?r \<noteq> None" if "Page ` set ?D \<noteq> set ?E"
    using that by (simp add: reconcile_def Let_def lodash_xor_Nil_iff)
  from same differ assms show ?thesis
    by (auto simp: updateNav_written updateNav_yml existing_strings)
qed

text \<open>
  A flat tree that already names the one discovered page, and names it twice: the sets
  are equal and nothing is written.
\<close>

theorem write_iff_sets_differ_witness:
  "[\<lparr>name = ''a.md'', isFile = True\<rparr>] \<noteq> [] \<and>
   written (updateNav \<lparr>referenceHeader = None, noReferenceHeader = None, dryRun = None\<rparr>
      [''p'', ''docs''] [''p'', ''docs'', ''ref'']
      \<lparr>docs_dir = None,
        nav = Some [Page ''intro.md'', Page ''ref/commands/a.md'', Page ''ref/commands/a.md''],
        other_keys = []\<rparr>
      [\<lparr>name = ''a.md'', isFile = True\<rparr>]) = None"
  using write_iff_sets_differ
      [where opts = "\<lparr>referenceHeader = None, noReferenceHeader = None, dryRun = None\<rparr>"
         and docs = "[''p'', ''docs'']" and out = "[''p'', ''docs'', ''ref'']"
         and y = "\<lparr>docs_dir = None,
           nav = Some [Page ''intro.md'', Page ''ref/commands/a.md'', Page ''ref/commands/a.md''],
           other_keys = []\<rparr>"
         and ents = "[\<lparr>name = ''a.md'', isFile = True\<rparr>]"]
  by (simp add: existing_def refTarget_def nav_of_def findRefDictIndex_def
      partitionRefArray_def lodash_partition_def isRef_def startsWith_def endsWith_def
      discover_def isMarkdownFile_def path_join_def path_relative_def relReferenceDir_def
      relCommandDir_def header_of_def DEFAULT_REFERENCE_HEADER_def)

section \<open>Rewriting an existing reference section\<close>






section \<open>Order and scope of the partition\<close>

text \<open>
  C7. In every run that writes, the non-reference entries of the list that was
  partitioned (the entries that do not start with the reference directory and a
  slash) come first in the list that replaces it, in their input order, which
  \<open>filter\<close> keeps. With a reference section that list is the one under the header, and
  the top-level entries around the section stay where they are; without one it is the
  top-level tree, followed by the new mapping when headers are in use and by the
  discovered paths when they are not.
\<close>

theorem nonreference_entries_first:
  assumes "written (reconcile hdr b d y D) = Some y'"
  shows "(0 \<le> findRefDictIndex hdr (nav_of y) \<longrightarrow>
            refTarget hdr (nav_of y') =
              filter (\<lambda>e. \<not> isRef d e) (refTarget hdr (nav_of y)) @ map Page D
            \<and> length (nav_of y') = length (nav_of y)
            \<and> (\<forall>j < length (nav_of y).
                 j \<noteq> nat (findRefDictIndex hdr (nav_of y)) \<longrightarrow> nav_of y' ! j = nav_of y ! j))
    \<and> (findRefDictIndex hdr (nav_of y) < 0 \<and> (b \<or> \<not> isStringArray (nav_of y)) \<longrightarrow>
            nav_of y' = filter (\<lambda>e. \<not> isRef d e) (nav_of y)
                        @ [Section [(hdr, Children (map Page D))]])
    \<and> (findRefDictIndex hdr (nav_of y) < 0 \<and> \<not> (b \<or> \<not> isStringArray (nav_of y)) \<longrightarrow>
            nav_of y' = filter (\<lambda>e. \<not> isRef d e) (nav_of y) @ map Page D)"
proof (intro conjI impI)
  assume ge: "0 \<le> findRefDictIndex hdr (nav_of y)"
  note y' = reconcile_written_cases(2) [OF assms ge]
  show "refTarget hdr (nav_of y') =
          filter (\<lambda>e. \<not> isRef d e) (refTarget hdr (nav_of y)) @ map Page D"
    by (subst y') (simp add: refTarget_assign [OF ge] existing_snd)
  show "length (nav_of y') = length (nav_of y)"
    by (subst y') simp
  show "\<forall>j < length (nav_of y).
          j \<noteq> nat (findRefDictIndex hdr (nav_of y)) \<longrightarrow> nav_of y' ! j = nav_of y ! j"
    by (subst y') simp
next
  assume "findRefDictIndex hdr (nav_of y) < 0 \<and> (b \<or> \<not> isStringArray (nav_of y))"
  then have neg: "findRefDictIndex hdr (nav_of y) < 0"
    and hdrs: "b \<or> \<not> isStringArray (nav_of y)" by simp_all
  from reconcile_written_cases(3) [OF assms neg hdrs]
  show "nav_of y' = filter (\<lambda>e. \<not> isRef d e) (nav_of y)
                    @ [Section [(hdr, Children (map Page D))]]"
    by (simp add: existing_snd refTarget_top [OF neg])
next
  assume "findRefDictIndex hdr (nav_of y) < 0 \<and> \<not> (b \<or> \<not> isStringArray (nav_of y))"
  then have neg: "findRefDictIndex hdr (nav_of y) < 0"
    and nb: "\<not> b" and flat: "isStringArray (nav_of y)" by simp_all
  from reconcile_written_cases(4) [OF assms nb flat]
  show "nav_of y' = filter (\<lambda>e. \<not> isRef d e) (nav_of y) @ map Page D"
    by (simp add: existing_snd refTarget_top [OF neg])
qed

text \<open>A flat tree: the stale reference page between two other pages is dropped.\<close>

theorem nonreference_entries_first_witness:
  "written (reconcile ''Reference'' False ''ref''
      \<lparr>docs_dir = None,
        nav = Some [Page ''intro.md'', Page ''ref/old.md'', Page ''guide.md''],
        other_keys = []\<rparr> [''ref/a.md''])
   = Some \<lparr>docs_dir = None,
        nav = Some [Page ''intro.md'', Page ''guide.md'', Page ''ref/a.md''],
        other_keys = []\<rparr>
   \<and> nav_of \<lparr>docs_dir = None,
        nav = Some [Page ''intro.md'', Page ''guide.md'', Page ''ref/a.md''],
        other_keys = []\<rparr>
     = filter (\<lambda>e. \<not> isRef ''ref'' e) [Page ''intro.md'', Page ''ref/old.md'', Page ''guide.md'']
       @ [Page ''ref/a.md'']"
proof -
  let ?y = "\<lparr>docs_dir = None,
        nav = Some [Page ''intro.md'', Page ''ref/old.md'', Page ''guide.md''],
        other_keys = []\<rparr>"
  let ?y' = "\<lparr>docs_dir = None,
        nav = Some [Page ''intro.md'', Page ''guide.md'', Page ''ref/a.md''],
        other_keys = []\<rparr>"
  have w: "written (reconcile ''Reference'' False ''ref'' ?y [''ref/a.md'']) = Some ?y'"
    by (simp add: run_defs)
  have neg: "findRefDictIndex ''Reference'' (nav_of ?y) < 0"
    by (simp add: findRefDictIndex_def has_Reference nav_of_def)
  have flat: "isStringArray (nav_of ?y)"
    by (simp add: isStringArray_def nav_of_def)
  from nonreference_entries_first [OF w] neg flat w show ?thesis
    by (simp add: nav_of_def)
qed





section \<open>A second run\<close>

text \<open>
  When every discovered path starts with the reference directory and a slash, a run
  that writes leaves a tree whose reference partition is the discovered list, so a
  second run on the written document with the same listing finds no difference and
  writes nothing.
\<close>

lemma filter_isRef_pages:
  "\<forall>p \<in> set D. startsWith p (d @ ''/'') \<Longrightarrow> filter (isRef d) (map Page D) = map Page D"
  by (simp add: filter_id_conv isRef_def)

lemma filter_isRef_rewritten:
  assumes "\<forall>p \<in> set D. startsWith p (d @ ''/'')"
  shows "filter (isRef d) (filter (\<lambda>e. \<not> isRef d e) xs @ map Page D) = map Page D"
proof -
  have "filter (isRef d) (filter (\<lambda>e. \<not> isRef d e) xs) = []"
    by (simp add: filter_empty_conv)
  with filter_isRef_pages [OF assms] show ?thesis by simp
qed

lemma isStringArray_rewritten:
  "isStringArray nv \<Longrightarrow> isStringArray (filter q nv @ map Page D)"
  by (auto simp: isStringArray_def list_all_iff)

lemma reconcile_second_run:
  assumes pre: "\<forall>p \<in> set D. startsWith p (d @ ''/'')"
    and w: "written (reconcile hdr b d y D) = Some y'"
  shows "reconcile hdr b d y' D = \<lparr>yml = y', written = None, logs = [Info_no_changes]\<rparr>"
proof -
  have "fst (existing hdr d (nav_of y')) = map Page D"
  proof (cases "0 \<le> findRefDictIndex hdr (nav_of y)")
    case True
    note y' = reconcile_written_cases(2) [OF w True]
    have "refTarget hdr (nav_of y') =
            filter (\<lambda>e. \<not> isRef d e) (refTarget hdr (nav_of y)) @ map Page D"
      by (subst y') (simp add: refTarget_assign [OF True] existing_snd)
    then show ?thesis
      by (simp only: existing_fst filter_isRef_rewritten [OF pre])
  next
    case False
    then have neg: "findRefDictIndex hdr (nav_of y) < 0" by simp
    show ?thesis
    proof (cases "b \<or> \<not> isStringArray (nav_of y)")
      case True
      from reconcile_written_cases(3) [OF w neg True]
      have "nav_of y' = filter (\<lambda>e. \<not> isRef d e) (nav_of y)
                        @ [Section [(hdr, Children (map Page D))]]"
        by (simp add: existing_snd refTarget_top [OF neg])
      then have "refTarget hdr (nav_of y') = map Page D"
        by (simp add: refTarget_added [OF neg])
      then show ?thesis
        by (simp only: existing_fst filter_isRef_pages [OF pre])
    next
      case False
      then have nb: "\<not> b" and flat: "isStringArray (nav_of y)" by simp_all
      from reconcile_written_cases(4) [OF w nb flat]
      have nv': "nav_of y' = filter (\<lambda>e. \<not> isRef d e) (nav_of y) @ map Page D"
        by (simp add: existing_snd refTarget_top [OF neg])
      from flat have "isStringArray (nav_of y')"
        unfolding nv' by (rule isStringArray_rewritten)
      then have "refTarget hdr (nav_of y') = nav_of y'"
        by (simp add: refTarget_top findRefDictIndex_flat)
      then show ?thesis
        by (simp only: existing_fst nv' filter_isRef_rewritten [OF pre])
    qed
  qed
  then show ?thesis by (simp add: reconcile_same)
qed

lemma updateNav_second_run:
  assumes "\<forall>p \<in> set (discover (relCommandDir docs out) ents).
             startsWith p (relReferenceDir docs out @ ''/'')"
    and "written (updateNav opts docs out y ents) = Some y'"
  shows "written (updateNav opts docs out y' ents) = None
         \<and> yml (updateNav opts docs out y' ents) = y'"
proof (cases "ents = []")
  case True
  with assms(2) show ?thesis by (simp add: updateNav_def)
next
  case False
  with assms(2) have "written (reconcile (header_of opts) (noHeader_of opts)
      (relReferenceDir docs out) y (discover (relCommandDir docs out) ents)) = Some y'"
    by (simp add: updateNav_written)
  from reconcile_second_run [OF assms(1) this] False show ?thesis
    by (simp add: updateNav_written updateNav_yml)
qed

text \<open>
  The discovered paths start with the reference directory and a slash unless the docs
  directory is TypeDoc's output directory itself or lies in its \<^verbatim>\<open>commands\<close> directory:
  in every other layout \<^verbatim>\<open>path.relative\<close> to the \<^verbatim>\<open>commands\<close> directory is
  \<^verbatim>\<open>path.relative\<close> to the output directory followed by \<^verbatim>\<open>/commands\<close>.
\<close>

lemma strip_common_snoc:
  "strip_common docs out = (up, down) \<Longrightarrow> down \<noteq> [] \<or> (up \<noteq> [] \<and> hd up \<noteq> c) \<Longrightarrow>
   strip_common docs (out @ [c]) = (up, down @ [c])"
proof (induction docs arbitrary: out)
  case Nil
  then show ?case by simp
next
  case (Cons a as)
  show ?case
  proof (cases out)
    case Nil
    with Cons.prems show ?thesis by auto
  next
    case (Cons b bs)
    show ?thesis
    proof (cases "a = b")
      case True
      with Cons.prems \<open>out = b # bs\<close> have "strip_common as bs = (up, down)" by simp
      from Cons.IH [OF this Cons.prems(2)] True \<open>out = b # bs\<close> show ?thesis by simp
    next
      case False
      with Cons.prems \<open>out = b # bs\<close> show ?thesis by auto
    qed
  qed
qed

lemma join_segments_snoc: "xs \<noteq> [] \<Longrightarrow> join_segments (xs @ [c]) = join_segments xs @ ''/'' @ c"
  by (induction xs rule: join_segments.induct) simp_all

lemma relCommandDir_below:
  assumes "strip_common docs out = (up, down)"
    and "down \<noteq> [] \<or> (up \<noteq> [] \<and> hd up \<noteq> ''commands'')"
  shows "relCommandDir docs out = relReferenceDir docs out @ ''/commands''"
proof -
  from assms(2) have ne: "replicate (length up) ''..'' @ down \<noteq> []" by auto
  from strip_common_snoc [OF assms]
  have "relCommandDir docs out = join_segments ((replicate (length up) ''..'' @ down) @ [''commands''])"
    by (simp add: relCommandDir_def path_relative_def)
  also have "\<dots> = join_segments (replicate (length up) ''..'' @ down) @ ''/'' @ ''commands''"
    using ne by (rule join_segments_snoc)
  finally show ?thesis
    using assms(1) by (simp add: relReferenceDir_def path_relative_def)
qed

lemma discovered_below_reference_dir:
  assumes "strip_common docs out = (up, down)"
    and "down \<noteq> [] \<or> (up \<noteq> [] \<and> hd up \<noteq> ''commands'')"
  shows "\<forall>p \<in> set (discover (relCommandDir docs out) ents).
           startsWith p (relReferenceDir docs out @ ''/'')"
  by (auto simp: discover_def path_join_def relCommandDir_below [OF assms] startsWith_def)

text \<open>
  C6. The claim expects no write from a second run on unchanged inputs. When the docs
  directory is TypeDoc's output directory, \<^verbatim>\<open>relReferenceDir\<close> is empty, the prefix of
  line 83 is a lone slash, and the discovered path \<^verbatim>\<open>commands/a.md\<close> does not start with
  it. The first run writes \<^verbatim>\<open>["commands/a.md"]\<close>; the second run, on that document and
  the same listing, finds no reference page in it, writes again and names the page
  twice.
\<close>

theorem second_run_writes_again:
  "written (updateNav \<lparr>referenceHeader = None, noReferenceHeader = None, dryRun = None\<rparr>
      [''p'', ''docs''] [''p'', ''docs'']
      \<lparr>docs_dir = None, nav = None, other_keys = []\<rparr>
      [\<lparr>name = ''a.md'', isFile = True\<rparr>])
   = Some \<lparr>docs_dir = None, nav = Some [Page ''commands/a.md''], other_keys = []\<rparr>
   \<and> written (updateNav \<lparr>referenceHeader = None, noReferenceHeader = None, dryRun = None\<rparr>
      [''p'', ''docs''] [''p'', ''docs'']
      \<lparr>docs_dir = None, nav = Some [Page ''commands/a.md''], other_keys = []\<rparr>
      [\<lparr>name = ''a.md'', isFile = True\<rparr>])
   = Some \<lparr>docs_dir = None, nav = Some [Page ''commands/a.md'', Page ''commands/a.md''],
            other_keys = []\<rparr>"
  by (simp add: run_defs)

end
